theory Spec2Isabelle
  imports Complex_Main "HOL-Library.List_Lexorder" "HOL-Library.Char_ord"
begin

section \<open>Data model\<close>

text \<open>
  The dashboard keeps its household snapshot as plain objects. A call's \<open>status\<close> is one of
  the four strings \<open>"open"\<close>, \<open>"expired"\<close>, \<open>"closed"\<close>, \<open>"assigned"\<close>. Money amounts are
  JavaScript numbers; they are modelled as exact rationals, so IEEE rounding, \<open>NaN\<close> and
  \<open>Infinity\<close> stored in a record field are outside the model. Share and contract counts
  and identifiers are integers (the forms store \<open>parseInt\<close> of the input). A field that may
  be \<open>undefined\<close>/\<open>null\<close> is an \<open>option\<close>; a date field is a string, with the empty string
  standing for both \<open>""\<close> and a missing value (both are falsy and are only ever tested
  for truthiness). Of the snapshot only the positions and the calls enter the computations
  below; the watchlist, the events and the identifier counter are left out.
\<close>

datatype status = SOpen | SExpired | SClosed | SAssigned

record call =
  cid :: int
  ticker :: string
  strike :: rat
  premium :: rat
  contracts :: int
  dateOpened :: string
  expiration :: string
  status :: status
  dateClosed :: string
  closePrice :: "rat option"
  totalPremium :: "rat option"
  totalCloseCost :: "rat option"

record position =
  pid :: int
  pticker :: string
  shares :: int
  costBasis :: rat
  dateAcquired :: string

record snapshot =
  positions :: "position list"
  calls :: "call list"

section \<open>Premium arithmetic\<close>

text \<open>
  \<^verbatim>\<open>const grossPrem = (c) => c.totalPremium != null ? c.totalPremium : c.premium * c.contracts * 100;\<close>
  \<^verbatim>\<open>const closeCostOf = (c) => c.totalCloseCost != null ? c.totalCloseCost
       : (c.status === "closed" ? (c.closePrice || 0) * c.contracts * 100 : 0);\<close>
  \<^verbatim>\<open>const netPrem = (c) => grossPrem(c) - closeCostOf(c);\<close>
\<close>

definition grossPrem :: "call \<Rightarrow> rat" where
  "grossPrem c =
     (case totalPremium c of
        Some t \<Rightarrow> t
      | None \<Rightarrow> premium c * of_int (contracts c) * 100)"

definition closeCostOf :: "call \<Rightarrow> rat" where
  "closeCostOf c =
     (case totalCloseCost c of
        Some t \<Rightarrow> t
      | None \<Rightarrow>
          (if status c = SClosed
           then (case closePrice c of Some p \<Rightarrow> p | None \<Rightarrow> 0) * of_int (contracts c) * 100
           else 0))"

definition netPrem :: "call \<Rightarrow> rat" where
  "netPrem c = grossPrem c - closeCostOf c"

section \<open>JavaScript built-ins used by the date code\<close>

text \<open>
  The date helpers split a string at \<open>"-"\<close>, convert the pieces with \<open>Number\<close> and build a
  local-time \<open>Date\<close>. These built-ins are modelled after ECMA-262. A JavaScript number that
  comes out of \<open>Number\<close> is finite, \<open>NaN\<close> or an infinity; the finite ones are exact
  rationals (a decimal literal beyond the range of a double is kept finite here, which the
  code cannot tell apart from an infinity: both are truthy and both give an invalid date).
\<close>

datatype jsnum = NaN | Fin rat | PosInf | NegInf

fun falsy :: "jsnum \<Rightarrow> bool" where
  "falsy NaN = True"
| "falsy (Fin q) = (q = 0)"
| "falsy PosInf = False"
| "falsy NegInf = False"

text \<open>\<open>s.split("-")\<close>: always at least one piece; \<open>"".split("-")\<close> is \<open>[""]\<close>.\<close>

fun js_split :: "char \<Rightarrow> string \<Rightarrow> string list" where
  "js_split sep [] = [[]]"
| "js_split sep (c # cs) =
     (if c = sep then [] # js_split sep cs
      else (case js_split sep cs of
              w # ws \<Rightarrow> (c # w) # ws
            | [] \<Rightarrow> [[c]]))"

text \<open>
  \<open>Number(s)\<close> on a string (StringToNumber): white space is trimmed, the empty string is 0,
  then a hexadecimal, octal or binary integer literal, or an optionally signed \<open>Infinity\<close>
  or decimal literal with optional fraction and exponent; anything else is \<open>NaN\<close>. White
  space is the ASCII part of the grammar (TAB, LF, VT, FF, CR, SP).
\<close>

definition is_ws :: "char \<Rightarrow> bool" where
  "is_ws c = (of_char c \<in> {9, 10, 11, 12, 13, 32 :: nat})"

definition js_trim :: "string \<Rightarrow> string" where
  "js_trim s = rev (dropWhile is_ws (rev (dropWhile is_ws s)))"

definition digit_in :: "nat \<Rightarrow> char \<Rightarrow> nat option" where
  "digit_in base c =
     (let n = (of_char c :: nat);
          v = (if 48 \<le> n \<and> n \<le> 57 then Some (n - 48)
               else if 97 \<le> n \<and> n \<le> 102 then Some (n - 87)
               else if 65 \<le> n \<and> n \<le> 70 then Some (n - 55)
               else None)
      in case v of Some d \<Rightarrow> (if d < base then Some d else None) | None \<Rightarrow> None)"

fun digits_val :: "nat \<Rightarrow> nat \<Rightarrow> string \<Rightarrow> nat option" where
  "digits_val base acc [] = Some acc"
| "digits_val base acc (c # cs) =
     (case digit_in base c of
        Some d \<Rightarrow> digits_val base (acc * base + d) cs
      | None \<Rightarrow> None)"

definition nat_lit :: "nat \<Rightarrow> string \<Rightarrow> nat option" where
  "nat_lit base s = (if s = [] then None else digits_val base 0 s)"

definition is_dec_digit :: "char \<Rightarrow> bool" where
  "is_dec_digit c = (digit_in 10 c \<noteq> None)"

definition exponent_part :: "string \<Rightarrow> int option" where
  "exponent_part s =
     (case s of
        [] \<Rightarrow> Some 0
      | c # r \<Rightarrow>
          (if c = CHR ''e'' \<or> c = CHR ''E'' then
             (case r of
                [] \<Rightarrow> None
              | g # ds \<Rightarrow>
                  (if g = CHR ''-'' then map_option (\<lambda>n. - int n) (nat_lit 10 ds)
                   else if g = CHR ''+'' then map_option int (nat_lit 10 ds)
                   else map_option int (nat_lit 10 r)))
           else None))"

definition pow10 :: "int \<Rightarrow> rat" where
  "pow10 e = (if 0 \<le> e then 10 ^ nat e else 1 / 10 ^ nat (- e))"

definition unsigned_decimal :: "string \<Rightarrow> rat option" where
  "unsigned_decimal s =
     (let ip = takeWhile is_dec_digit s;
          r1 = dropWhile is_dec_digit s;
          dot = (r1 \<noteq> [] \<and> hd r1 = CHR ''.'');
          fp = (if dot then takeWhile is_dec_digit (tl r1) else []);
          r2 = (if dot then dropWhile is_dec_digit (tl r1) else r1)
      in if ip = [] \<and> fp = [] then None
         else (case (digits_val 10 0 ip, digits_val 10 0 fp, exponent_part r2) of
                 (Some i, Some f, Some e) \<Rightarrow>
                    Some ((of_nat i + of_nat f / 10 ^ length fp) * pow10 e)
               | _ \<Rightarrow> None))"

definition signed_literal :: "string \<Rightarrow> jsnum" where
  "signed_literal s =
     (let neg = (s \<noteq> [] \<and> hd s = CHR ''-'');
          body = (if s \<noteq> [] \<and> (hd s = CHR ''-'' \<or> hd s = CHR ''+'') then tl s else s)
      in if body = ''Infinity'' then (if neg then NegInf else PosInf)
         else (case unsigned_decimal body of
                 Some q \<Rightarrow> Fin (if neg then - q else q)
               | None \<Rightarrow> NaN))"

definition js_Number :: "string \<Rightarrow> jsnum" where
  "js_Number s =
     (let t = js_trim s
      in if t = [] then Fin 0
         else if take 2 t = ''0x'' \<or> take 2 t = ''0X'' then
           (case nat_lit 16 (drop 2 t) of Some n \<Rightarrow> Fin (of_nat n) | None \<Rightarrow> NaN)
         else if take 2 t = ''0o'' \<or> take 2 t = ''0O'' then
           (case nat_lit 8 (drop 2 t) of Some n \<Rightarrow> Fin (of_nat n) | None \<Rightarrow> NaN)
         else if take 2 t = ''0b'' \<or> take 2 t = ''0B'' then
           (case nat_lit 2 (drop 2 t) of Some n \<Rightarrow> Fin (of_nat n) | None \<Rightarrow> NaN)
         else signed_literal t)"

text \<open>Array destructuring \<open>[y, m, d] = arr\<close>: a missing element is \<open>undefined\<close>, which
  every later use converts to \<open>NaN\<close>.\<close>

definition elem :: "jsnum list \<Rightarrow> nat \<Rightarrow> jsnum" where
  "elem xs i = (if i < length xs then xs ! i else NaN)"

text \<open>\<open>m - 1\<close> on a number.\<close>

fun minus1 :: "jsnum \<Rightarrow> jsnum" where
  "minus1 (Fin q) = Fin (q - 1)"
| "minus1 x = x"

subsection \<open>Dates\<close>

text \<open>
  A \<open>Date\<close> holds a time value or is invalid. The model keeps local wall-clock time in days
  since the local epoch day 1970-01-01 as a rational (\<open>None\<close> is the invalid date): a local
  midnight is a whole number. Daylight-saving shifts between two local midnights, which
  \<open>Math.round\<close> in \<open>daysBetween\<close> absorbs, are therefore not represented.
\<close>

type_synonym jsdate = "rat option"

definition trunc :: "rat \<Rightarrow> int" where
  "trunc q = (if 0 \<le> q then \<lfloor>q\<rfloor> else \<lceil>q\<rceil>)"

definition InLeapYear :: "int \<Rightarrow> bool" where
  "InLeapYear y = ((y mod 4 = 0 \<and> y mod 100 \<noteq> 0) \<or> y mod 400 = 0)"

definition DayFromYear :: "int \<Rightarrow> int" where
  "DayFromYear y =
     365 * (y - 1970) + (y - 1969) div 4 - (y - 1901) div 100 + (y - 1601) div 400"

definition monthStart :: "int \<Rightarrow> int \<Rightarrow> int" where
  "monthStart y mn =
     [0, 31, 59, 90, 120, 151, 181, 212, 243, 273, 304, 334] ! nat mn
       + (if InLeapYear y \<and> 2 \<le> mn then 1 else 0)"

text \<open>\<open>MakeDay(year, month, date)\<close> on integral arguments; \<open>month\<close> is zero-based and may lie
  outside 0..11, \<open>date\<close> may lie outside the month.\<close>

definition MakeDay :: "int \<Rightarrow> int \<Rightarrow> int \<Rightarrow> int" where
  "MakeDay y m dt =
     (let ym = y + m div 12; mn = m mod 12
      in DayFromYear ym + monthStart ym mn + dt - 1)"

text \<open>\<open>TimeClip\<close>: a time value more than 8.64e15 ms (100,000,000 days) from the epoch is
  invalid.\<close>

definition TimeClip :: "int \<Rightarrow> jsdate" where
  "TimeClip day = (if \<bar>day\<bar> > 100000000 then None else Some (of_int day))"

text \<open>\<open>new Date(y, m, d)\<close> with three numeric arguments: a two-digit year means 19xx.\<close>

definition js_Date :: "jsnum \<Rightarrow> jsnum \<Rightarrow> jsnum \<Rightarrow> jsdate" where
  "js_Date y m d =
     (case (y, m, d) of
        (Fin yq, Fin mq, Fin dq) \<Rightarrow>
          (let yi = trunc yq;
               yr = (if 0 \<le> yi \<and> yi \<le> 99 then 1900 + yi else yi)
           in TimeClip (MakeDay yr (trunc mq) (trunc dq)))
      | _ \<Rightarrow> None)"

text \<open>
  Civil date of a day number: \<open>getFullYear\<close>, \<open>getMonth() + 1\<close>, \<open>getDate\<close>. The
  computation counts from 0000-03-01 in 400-year eras of 146097 days: day of era, year of
  era, day of the year starting in March, month starting in March.
\<close>

definition civil_from_mp :: "int \<Rightarrow> int \<Rightarrow> int \<Rightarrow> int \<times> int \<times> int" where
  "civil_from_mp y doy mp =
     (if mp < 10 then (y, mp + 3, doy - (153 * mp + 2) div 5 + 1)
      else (y + 1, mp - 9, doy - (153 * mp + 2) div 5 + 1))"

definition civil_from_doy :: "int \<Rightarrow> int \<Rightarrow> int \<times> int \<times> int" where
  "civil_from_doy y doy = civil_from_mp y doy ((5 * doy + 2) div 153)"

definition civil_from_yoe :: "int \<Rightarrow> int \<Rightarrow> int \<Rightarrow> int \<times> int \<times> int" where
  "civil_from_yoe era doe yoe =
     civil_from_doy (yoe + era * 400) (doe - (365 * yoe + yoe div 4 - yoe div 100))"

definition civil_from_doe :: "int \<Rightarrow> int \<Rightarrow> int \<times> int \<times> int" where
  "civil_from_doe era doe =
     civil_from_yoe era doe ((doe - doe div 1460 + doe div 36524 - doe div 146096) div 365)"

definition civil :: "int \<Rightarrow> int \<times> int \<times> int" where
  "civil day = civil_from_doe ((day + 719468) div 146097) ((day + 719468) mod 146097)"

text \<open>\<open>getDay()\<close>: 0 is Sunday; day 0 (1970-01-01) was a Thursday.\<close>

definition getDay :: "int \<Rightarrow> int" where
  "getDay day = (day + 4) mod 7"

text \<open>\<open>String(n)\<close> for an integer and \<open>padStart(2, "0")\<close>.\<close>

definition digit_char :: "nat \<Rightarrow> char" where
  "digit_char k = ''0123456789'' ! k"

fun nat_digits :: "nat \<Rightarrow> string" where
  "nat_digits n =
     (if n < 10 then [digit_char n]
      else nat_digits (n div 10) @ [digit_char (n mod 10)])"

declare nat_digits.simps [simp del]

definition js_String :: "int \<Rightarrow> string" where
  "js_String i = (if i < 0 then CHR ''-'' # nat_digits (nat (- i)) else nat_digits (nat i))"

definition padStart2 :: "string \<Rightarrow> string" where
  "padStart2 s = replicate (2 - length s) CHR ''0'' @ s"

text \<open>\<open>Math.round\<close>: to the nearest integer, halves up.\<close>

definition js_round :: "rat \<Rightarrow> int" where
  "js_round x = \<lfloor>x + 1 / 2\<rfloor>"

text \<open>\<open>toUpperCase\<close> on the ASCII letters (ticker symbols).\<close>

definition upper_char :: "char \<Rightarrow> char" where
  "upper_char c =
     (case map_of (zip ''abcdefghijklmnopqrstuvwxyz'' ''ABCDEFGHIJKLMNOPQRSTUVWXYZ'') c of
        Some u \<Rightarrow> u
      | None \<Rightarrow> c)"

definition toUpperCase :: "string \<Rightarrow> string" where
  "toUpperCase s = map upper_char s"

section \<open>Date helpers of the dashboard\<close>

text \<open>
  \<^verbatim>\<open>const parseLocalDate = (s) => {
    if (!s) return new Date();
    const [y, m, d] = s.split("-").map(Number);
    return new Date(y, m - 1, d);
  };\<close>
  \<^verbatim>\<open>const daysBetween = (a, b) => Math.round((parseLocalDate(b) - parseLocalDate(a)) / 86400000);\<close>
  The ambient clock is an explicit input: \<open>now\<close> is the instant \<open>new Date()\<close> returns, in
  days, and \<open>today\<close> (below) is the string \<open>today()\<close> returns.
\<close>

definition parseLocalDate :: "rat \<Rightarrow> string \<Rightarrow> jsdate" where
  "parseLocalDate now s =
     (if s = [] then Some now
      else (let ns = map js_Number (js_split CHR ''-'' s)
            in js_Date (elem ns 0) (minus1 (elem ns 1)) (elem ns 2)))"

text \<open>The result is \<open>None\<close> when the JavaScript value is \<open>NaN\<close> (an invalid date on either
  side).\<close>

definition daysBetween :: "rat \<Rightarrow> string \<Rightarrow> string \<Rightarrow> int option" where
  "daysBetween now a b =
     (case (parseLocalDate now b, parseLocalDate now a) of
        (Some tb, Some ta) \<Rightarrow> Some (js_round (tb - ta))
      | _ \<Rightarrow> None)"

text \<open>\<open>x || y\<close> on date strings.\<close>

definition or_else :: "string \<Rightarrow> string \<Rightarrow> string" where
  "or_else a b = (if a \<noteq> [] then a else b)"

section \<open>Derived values of the dashboard\<close>

text \<open>
  \<^verbatim>\<open>const totalPremiumCollected = data.calls.reduce((sum, c) => {
    const prem = grossPrem(c);
    if (c.status === "closed") return sum + prem - closeCostOf(c);
    if (c.status === "open") return sum;
    return sum + prem;
  }, 0);\<close>
  \<^verbatim>\<open>const totalCapitalDeployed = activePositions.reduce((sum, p) => sum + p.costBasis * p.shares, 0);\<close>
\<close>

definition premiumStep :: "rat \<Rightarrow> call \<Rightarrow> rat" where
  "premiumStep acc c =
     (let prem = grossPrem c
      in if status c = SClosed then acc + prem - closeCostOf c
         else if status c = SOpen then acc
         else acc + prem)"

definition totalPremiumCollected :: "call list \<Rightarrow> rat" where
  "totalPremiumCollected cs = foldl premiumStep 0 cs"

definition totalCapitalDeployed :: "position list \<Rightarrow> rat" where
  "totalCapitalDeployed ps = foldl (\<lambda>acc p. acc + costBasis p * of_int (shares p)) 0 ps"

subsection \<open>Weekly and monthly premium series\<close>

text \<open>
  Both series collect net premium of the non-open calls into an object keyed by a string,
  sort the entries by key and add a running total. The object is an association list in
  insertion order; \<open>weeks[key] = (weeks[key] || 0) + net\<close> is \<open>obj_add\<close>. The entries are
  sorted with \<open>localeCompare\<close>, modelled by the code-unit order on strings, with which it
  agrees on keys made of digits and \<open>-\<close>.
\<close>

fun obj_add :: "string \<Rightarrow> rat \<Rightarrow> (string \<times> rat) list \<Rightarrow> (string \<times> rat) list" where
  "obj_add k v [] = [(k, 0 + v)]"
| "obj_add k v ((k', x) # r) =
     (if k' = k then (k', x + v) # r else (k', x) # obj_add k v r)"



definition keyDate :: "call \<Rightarrow> string" where
  "keyDate c = or_else (dateClosed c) (dateOpened c)"

text \<open>
  \<^verbatim>\<open>const weekStart = new Date(dt);
  weekStart.setDate(dt.getDate() - dt.getDay());
  const key = `${weekStart.getFullYear()}-${String(weekStart.getMonth() + 1).padStart(2, "0")}-${String(weekStart.getDate()).padStart(2, "0")}`;\<close>
  On an invalid date every getter is \<open>NaN\<close>. The template (year, month + 1 and date, the
  last two padded to two digits) is also the one \<open>today()\<close> fills in.
\<close>

definition ymdString :: "int \<Rightarrow> int \<Rightarrow> int \<Rightarrow> string" where
  "ymdString y m d =
     js_String y @ ''-'' @ padStart2 (js_String m) @ ''-'' @ padStart2 (js_String d)"

definition formatDay :: "jsdate \<Rightarrow> string" where
  "formatDay t =
     (case t of
        None \<Rightarrow> ''NaN-NaN-NaN''
      | Some q \<Rightarrow> (case civil \<lfloor>q\<rfloor> of (y, m, d) \<Rightarrow> ymdString y m d))"

definition weekKey :: "jsdate \<Rightarrow> string" where
  "weekKey dt =
     (case dt of
        None \<Rightarrow> formatDay None
      | Some q \<Rightarrow> formatDay (TimeClip (\<lfloor>q\<rfloor> - getDay \<lfloor>q\<rfloor>)))"

text \<open>
  \<^verbatim>\<open>data.calls.filter(c => c.status !== "open").forEach((c) => {
    const dateStr = c.dateClosed || c.dateOpened;
    const [y, m, d] = (dateStr || "").split("-").map(Number);
    if (!y) return;
    const dt = new Date(y, m - 1, d);
    ...
    const net = netPrem(c);
    weeks[key] = (weeks[key] || 0) + net;
  });\<close>
\<close>

definition addWeek :: "(string \<times> rat) list \<Rightarrow> call \<Rightarrow> (string \<times> rat) list" where
  "addWeek weeks c =
     (let ns = map js_Number (js_split CHR ''-'' (keyDate c));
          y = elem ns 0
      in if falsy y then weeks
         else obj_add (weekKey (js_Date y (minus1 (elem ns 1)) (elem ns 2))) (netPrem c) weeks)"

definition weekBuckets :: "call list \<Rightarrow> (string \<times> rat) list" where
  "weekBuckets cs = foldl addWeek [] (filter (\<lambda>c. status c \<noteq> SOpen) cs)"


text \<open>
  \<^verbatim>\<open>const key = (dateStr || "").slice(0, 7);
  if (!key || key.length < 7) return;
  const net = netPrem(c);
  months[key] = (months[key] || 0) + net;\<close>
\<close>

definition addMonth :: "(string \<times> rat) list \<Rightarrow> call \<Rightarrow> (string \<times> rat) list" where
  "addMonth months c =
     (let key = take 7 (keyDate c)
      in if key = [] \<or> length key < 7 then months
         else obj_add key (netPrem c) months)"

definition monthBuckets :: "call list \<Rightarrow> (string \<times> rat) list" where
  "monthBuckets cs = foldl addMonth [] (filter (\<lambda>c. status c \<noteq> SOpen) cs)"


subsection \<open>Tax rows\<close>

text \<open>
  \<^verbatim>\<open>data.calls.filter(c => c.status !== "open").map((c) => {
    const held = daysBetween(c.dateOpened, c.dateClosed || today());
    const net = netPrem(c);
    const treatment = held > 365 ? "Long-term" : "Short-term";
    const isLoss = net < 0;
    const nearbyTrades = data.calls.filter(
      (o) => o.id !== c.id && o.ticker === c.ticker
             && Math.abs(daysBetween(c.dateClosed || today(), o.dateOpened)) <= 30);
    const washSaleRisk = isLoss && nearbyTrades.length > 0;
    return { ...c, held, net, treatment, washSaleRisk };
  });\<close>
  A comparison with \<open>NaN\<close> is false.
\<close>

record tax_row =
  tr_call :: call
  held :: "int option"
  net :: rat
  treatment :: string
  washSaleRisk :: bool

definition gt_days :: "int option \<Rightarrow> int \<Rightarrow> bool" where
  "gt_days h n = (case h of Some k \<Rightarrow> k > n | None \<Rightarrow> False)"

definition abs_le_days :: "int option \<Rightarrow> int \<Rightarrow> bool" where
  "abs_le_days h n = (case h of Some k \<Rightarrow> \<bar>k\<bar> \<le> n | None \<Rightarrow> False)"

definition nearbyTrades :: "string \<Rightarrow> rat \<Rightarrow> call list \<Rightarrow> call \<Rightarrow> call list" where
  "nearbyTrades today now cs c =
     filter (\<lambda>other. cid other \<noteq> cid c \<and> ticker other = ticker c \<and>
                 abs_le_days
                   (daysBetween now (or_else (dateClosed c) today) (dateOpened other)) 30) cs"

definition taxRow :: "string \<Rightarrow> rat \<Rightarrow> call list \<Rightarrow> call \<Rightarrow> tax_row" where
  "taxRow today now cs c =
     (let h = daysBetween now (dateOpened c) (or_else (dateClosed c) today);
          n = netPrem c;
          isLoss = (n < 0)
      in \<lparr> tr_call = c, held = h, net = n,
           treatment = (if gt_days h 365 then ''Long-term'' else ''Short-term''),
           washSaleRisk = (isLoss \<and> length (nearbyTrades today now cs c) > 0) \<rparr>)"


subsection \<open>Annualized yield\<close>

text \<open>
  \<^verbatim>\<open>if (totalCapitalDeployed === 0) return 0;
  const allDates = data.calls.map(c => c.dateOpened).filter(Boolean).sort();
  if (allDates.length === 0) return 0;
  const daysSinceFirst = daysBetween(allDates[0], today());
  if (daysSinceFirst <= 0) return 0;
  return (totalPremiumCollected / totalCapitalDeployed) * (365 / daysSinceFirst);\<close>
  \<open>sort()\<close> without a comparator orders strings by code units. When \<open>daysSinceFirst\<close> is
  \<open>NaN\<close> the guard is false and the result is \<open>NaN\<close>.
\<close>

definition allDates :: "call list \<Rightarrow> string list" where
  "allDates cs = sort (filter (\<lambda>s. s \<noteq> []) (map dateOpened cs))"

definition annualizedYield :: "string \<Rightarrow> rat \<Rightarrow> snapshot \<Rightarrow> jsnum" where
  "annualizedYield today now data =
     (if totalCapitalDeployed (positions data) = 0 then Fin 0
      else (case allDates (calls data) of
              [] \<Rightarrow> Fin 0
            | first # _ \<Rightarrow>
                (case daysBetween now first today of
                   None \<Rightarrow> NaN
                 | Some daysSinceFirst \<Rightarrow>
                     (if daysSinceFirst \<le> 0 then Fin 0
                      else Fin ((totalPremiumCollected (calls data)
                                   / totalCapitalDeployed (positions data))
                                * (365 / of_int daysSinceFirst))))))"

subsection \<open>Covered call against buy and hold\<close>

text \<open>
  One entry of \<open>comparisons\<close> (per upper-cased ticker of the positions). The percentage
  fields, \<open>avgBasis\<close> and the premium-only yield are derived from the fields kept here by
  divisions the properties below do not concern, and are left out.
  \<^verbatim>\<open>const mktPrice = livePrices[ticker] || null;
  ...
  const buyHoldValue = mktPrice ? totalShares * mktPrice : null;
  const buyHoldReturn = buyHoldValue ? buyHoldValue - totalCost : null;
  const ccValue = mktPrice ? (currentShares * mktPrice) + assignmentProceeds + netPremium : null;
  const ccReturn = ccValue ? ccValue - totalCost : null;
  const alpha = ccReturn !== null && buyHoldReturn !== null ? ccReturn - buyHoldReturn : null;\<close>
  \<open>None\<close> is \<open>null\<close>; a number is truthy when it is not 0.
\<close>

record comparison =
  cmp_ticker :: string
  totalShares :: int
  currentShares :: int
  totalCost :: rat
  mktPrice :: "rat option"
  netPremium :: rat
  grossPremium :: rat
  assignedShares :: int
  assignmentProceeds :: rat
  buyHoldReturn :: "rat option"
  ccReturn :: "rat option"
  alpha :: "rat option"

definition or_null :: "rat option \<Rightarrow> rat option" where
  "or_null v = (case v of Some p \<Rightarrow> (if p = 0 then None else Some p) | None \<Rightarrow> None)"

definition minus_if_truthy :: "rat option \<Rightarrow> rat \<Rightarrow> rat option" where
  "minus_if_truthy v cost =
     (case v of Some x \<Rightarrow> (if x = 0 then None else Some (x - cost)) | None \<Rightarrow> None)"

definition compareTicker :: "(string \<rightharpoonup> rat) \<Rightarrow> snapshot \<Rightarrow> string \<Rightarrow> comparison" where
  "compareTicker livePrices data tk =
     (let ps = filter (\<lambda>p. toUpperCase (pticker p) = tk) (positions data);
          tShares = foldl (\<lambda>s p. s + shares p) 0 ps;
          tCost = foldl (\<lambda>s p. s + costBasis p * of_int (shares p)) 0 ps;
          price = or_null (livePrices tk);
          tickerCalls = filter (\<lambda>c. toUpperCase (ticker c) = tk) (calls data);
          gross = foldl (\<lambda>s c. s + grossPrem c) 0 tickerCalls;
          closeCosts = foldl (\<lambda>s c. s + closeCostOf c) 0 tickerCalls;
          netP = gross - closeCosts;
          assigned = filter (\<lambda>c. status c = SAssigned) tickerCalls;
          aShares = foldl (\<lambda>s c. s + contracts c * 100) 0 assigned;
          cShares = tShares - aShares;
          proceeds = foldl (\<lambda>s c. s + strike c * of_int (contracts c) * 100) 0 assigned;
          buyHoldValue = (case price of Some p \<Rightarrow> Some (of_int tShares * p) | None \<Rightarrow> None);
          bhReturn = minus_if_truthy buyHoldValue tCost;
          ccValue = (case price of
                       Some p \<Rightarrow> Some (of_int cShares * p + proceeds + netP)
                     | None \<Rightarrow> None);
          ccRet = minus_if_truthy ccValue tCost
      in \<lparr> cmp_ticker = tk, totalShares = tShares, currentShares = cShares, totalCost = tCost,
           mktPrice = price, netPremium = netP, grossPremium = gross,
           assignedShares = aShares, assignmentProceeds = proceeds,
           buyHoldReturn = bhReturn, ccReturn = ccRet,
           alpha = (case (ccRet, bhReturn) of
                      (Some c, Some b) \<Rightarrow> Some (c - b)
                    | _ \<Rightarrow> None) \<rparr>)"

text \<open>\<open>[...new Set(xs)]\<close>: the distinct elements in order of first occurrence.\<close>

fun uniq :: "'a list \<Rightarrow> 'a list" where
  "uniq [] = []"
| "uniq (x # xs) = x # uniq (filter (\<lambda>y. y \<noteq> x) xs)"

definition comparisons :: "(string \<rightharpoonup> rat) \<Rightarrow> snapshot \<Rightarrow> comparison list" where
  "comparisons livePrices data =
     map (compareTicker livePrices data)
       (uniq (map (\<lambda>p. toUpperCase (pticker p)) (positions data)))"

subsection \<open>Trade post-mortem\<close>





section \<open>Calendar dates\<close>

text \<open>
  Not dashboard code: the dates of the Gregorian calendar, for stating what the date code
  does on the strings a date input delivers (\<open>YYYY-MM-DD\<close> of an existing day).
\<close>

definition daysInMonth :: "int \<Rightarrow> int \<Rightarrow> int" where
  "daysInMonth y m =
     (if m = 2 then (if InLeapYear y then 29 else 28)
      else if m = 4 \<or> m = 6 \<or> m = 9 \<or> m = 11 then 30
      else 31)"

definition validDate :: "int \<Rightarrow> int \<Rightarrow> int \<Rightarrow> bool" where
  "validDate y m d = (1 \<le> m \<and> m \<le> 12 \<and> 1 \<le> d \<and> d \<le> daysInMonth y m)"

section \<open>Example records\<close>

text \<open>
  The scenario of the specification: a position of 100 XYZ shares at a cost basis of 50 and
  one expired call on it (strike 55, premium 2, one contract). The concrete inputs below
  are variations of these two records.
\<close>

definition xyz_position :: position where
  "xyz_position = \<lparr> pid = 1, pticker = ''XYZ'', shares = 100, costBasis = 50,
       dateAcquired = ''2024-01-01'' \<rparr>"

definition xyz_call :: call where
  "xyz_call = \<lparr> cid = 2, ticker = ''XYZ'', strike = 55, premium = 2, contracts = 1,
       dateOpened = ''2024-01-05'', expiration = ''2024-02-02'', status = SExpired,
       dateClosed = [], closePrice = None, totalPremium = None, totalCloseCost = None \<rparr>"


text \<open>The annualized-yield scenario: 10000 deployed, one expired call that brought in
  1000, written on 2024-01-01.\<close>

definition yield_data :: snapshot where
  "yield_data = \<lparr> positions = [xyz_position\<lparr>costBasis := 100\<rparr>],
                  calls = [xyz_call\<lparr>premium := 10, dateOpened := ''2024-01-01''\<rparr>] \<rparr>"

text \<open>The comparator scenario of the specification (net premium 300 on 100 shares that
  cost 5000), and two snapshots in which the shares have fallen below cost and the call
  was bought back at a loss.\<close>

definition example_data :: snapshot where
  "example_data = \<lparr> positions = [xyz_position], calls = [xyz_call\<lparr>premium := 3\<rparr>] \<rparr>"

definition underwater_data :: snapshot where
  "underwater_data = \<lparr> positions = [xyz_position\<lparr>costBasis := 5\<rparr>],
       calls = [xyz_call\<lparr>status := SClosed, premium := 1, closePrice := Some 3,
                         dateClosed := ''2024-01-10''\<rparr>] \<rparr>"

definition underwater_data2 :: snapshot where
  "underwater_data2 = \<lparr> positions = [xyz_position\<lparr>shares := 200, costBasis := 10\<rparr>],
       calls = [xyz_call\<lparr>status := SClosed, contracts := 2, closePrice := Some 5,
                         dateClosed := ''2024-01-10''\<rparr>] \<rparr>"

lemmas number_defs = js_Number_def js_trim_def is_ws_def signed_literal_def unsigned_decimal_def
  is_dec_digit_def digit_in_def nat_lit_def exponent_part_def pow10_def

lemmas date_defs = parseLocalDate_def elem_def js_Date_def trunc_def TimeClip_def MakeDay_def
  DayFromYear_def monthStart_def InLeapYear_def


section \<open>Premium arithmetic: properties\<close>

text \<open>
  C1. Gross premium is the \<open>totalPremium\<close> override when present, else
  premium per share times contracts times 100; close cost is the \<open>totalCloseCost\<close>
  override when present, else close price per share times contracts times 100 for a closed
  call and 0 for every other status; net premium is gross premium minus close cost.
\<close>

theorem premium_arithmetic:
  "(totalPremium c = Some t \<longrightarrow> grossPrem c = t) \<and>
   (totalPremium c = None \<longrightarrow> grossPrem c = premium c * of_int (contracts c) * 100) \<and>
   (totalCloseCost c = Some k \<longrightarrow> closeCostOf c = k) \<and>
   (totalCloseCost c = None \<and> status c = SClosed \<and> closePrice c = Some p \<longrightarrow>
      closeCostOf c = p * of_int (contracts c) * 100) \<and>
   (totalCloseCost c = None \<and> status c \<noteq> SClosed \<longrightarrow> closeCostOf c = 0) \<and>
   netPrem c = grossPrem c - closeCostOf c"
  by (simp add: grossPrem_def closeCostOf_def netPrem_def)

theorem premium_arithmetic_witness:
  "grossPrem (xyz_call\<lparr>status := SClosed, closePrice := Some (1/2)\<rparr>) = 200 \<and>
   closeCostOf (xyz_call\<lparr>status := SClosed, closePrice := Some (1/2)\<rparr>) = 50 \<and>
   netPrem (xyz_call\<lparr>status := SClosed, closePrice := Some (1/2)\<rparr>) = 150 \<and>
   grossPrem (xyz_call\<lparr>totalPremium := Some 195, totalCloseCost := Some 45\<rparr>) = 195 \<and>
   closeCostOf (xyz_call\<lparr>totalPremium := Some 195, totalCloseCost := Some 45\<rparr>) = 45 \<and>
   closeCostOf xyz_call = 0"
  using premium_arithmetic [of "xyz_call\<lparr>status := SClosed, closePrice := Some (1/2)\<rparr>" 0 0 "1/2"]
        premium_arithmetic [of "xyz_call\<lparr>totalPremium := Some 195, totalCloseCost := Some 45\<rparr>" 195 45 0]
        premium_arithmetic [of xyz_call 0 0 0]
  by (simp add: xyz_call_def)

text \<open>A closed call without a recorded close price costs nothing to close
  (\<open>c.closePrice || 0\<close>).\<close>

lemma closeCostOf_no_closePrice:
  "totalCloseCost c = None \<Longrightarrow> closePrice c = None \<Longrightarrow> closeCostOf c = 0"
  by (simp add: closeCostOf_def)

text \<open>
  C10. Override presence is a test against \<open>null\<close>/\<open>undefined\<close>, not truthiness: a call whose
  \<open>totalPremium\<close> is 0 has gross premium 0 and a closed call whose \<open>totalCloseCost\<close> is 0 has
  close cost 0, whatever the per-share fields say, while the same call without the override
  gets the per-share formula; so an explicit zero override and an absent one are told apart.
\<close>

theorem zero_override_honored:
  "(totalPremium c = Some 0 \<longrightarrow> grossPrem c = 0) \<and>
   (status c = SClosed \<and> totalCloseCost c = Some 0 \<longrightarrow> closeCostOf c = 0) \<and>
   grossPrem (c\<lparr>totalPremium := None\<rparr>) = premium c * of_int (contracts c) * 100 \<and>
   (status c = SClosed \<and> closePrice c = Some p \<longrightarrow>
      closeCostOf (c\<lparr>totalCloseCost := None\<rparr>) = p * of_int (contracts c) * 100)"
  by (simp add: grossPrem_def closeCostOf_def)

theorem zero_override_honored_witness:
  "grossPrem (xyz_call\<lparr>status := SClosed, closePrice := Some 3, totalPremium := Some 0,
                       totalCloseCost := Some 0\<rparr>) = 0 \<and>
   closeCostOf (xyz_call\<lparr>status := SClosed, closePrice := Some 3, totalPremium := Some 0,
                         totalCloseCost := Some 0\<rparr>) = 0 \<and>
   grossPrem (xyz_call\<lparr>status := SClosed, closePrice := Some 3, totalPremium := None,
                       totalCloseCost := Some 0\<rparr>) = 200 \<and>
   closeCostOf (xyz_call\<lparr>status := SClosed, closePrice := Some 3, totalPremium := Some 0,
                         totalCloseCost := None\<rparr>) = 300"
  using zero_override_honored
          [of "xyz_call\<lparr>status := SClosed, closePrice := Some 3, totalPremium := Some 0,
                        totalCloseCost := Some 0\<rparr>" 3]
  by (simp add: xyz_call_def)

section \<open>Total premium collected\<close>

text \<open>The reduction adds, per call, net premium for a closed call, nothing for an open one
  and gross premium for an expired or assigned one.\<close>

lemma foldl_premiumStep: "foldl premiumStep a cs = a + foldl premiumStep 0 cs"
proof (induction cs arbitrary: a)
  case Nil
  show ?case by simp
next
  case (Cons c cs)
  have "foldl premiumStep a (c # cs) = foldl premiumStep (premiumStep a c) cs" by simp
  also have "\<dots> = premiumStep a c + foldl premiumStep 0 cs" by (rule Cons.IH)
  also have "premiumStep a c = a + premiumStep 0 c" by (simp add: premiumStep_def Let_def)
  also have "a + premiumStep 0 c + foldl premiumStep 0 cs
               = a + foldl premiumStep (premiumStep 0 c) cs"
    using Cons.IH [of "premiumStep 0 c"] by simp
  finally show ?case by simp
qed

lemma totalPremiumCollected_sum:
  "totalPremiumCollected cs =
     (\<Sum>c\<leftarrow>cs. if status c = SClosed then netPrem c
              else if status c = SOpen then 0 else grossPrem c)"
proof (induction cs)
  case Nil
  show ?case by (simp add: totalPremiumCollected_def)
next
  case (Cons c cs)
  have "totalPremiumCollected (c # cs) = premiumStep 0 c + totalPremiumCollected cs"
    using foldl_premiumStep [of "premiumStep 0 c" cs] by (simp add: totalPremiumCollected_def)
  then show ?case using Cons.IH by (simp add: premiumStep_def netPrem_def Let_def)
qed

text \<open>So the total is the sum of net premium over the non-open calls as long as no expired
  or assigned call carries a close cost.\<close>

lemma totalPremiumCollected_net:
  assumes "\<And>c. c \<in> set cs \<Longrightarrow> status c = SExpired \<or> status c = SAssigned
             \<Longrightarrow> totalCloseCost c = None"
  shows "totalPremiumCollected cs = (\<Sum>c\<leftarrow>cs. if status c = SOpen then 0 else netPrem c)"
proof -
  have "(if status c = SClosed then netPrem c else if status c = SOpen then 0 else grossPrem c)
          = (if status c = SOpen then 0 else netPrem c)" if "c \<in> set cs" for c
    using assms [OF that] by (cases "status c") (auto simp: netPrem_def closeCostOf_def)
  then have "map (\<lambda>c. if status c = SClosed then netPrem c
                       else if status c = SOpen then 0 else grossPrem c) cs
               = map (\<lambda>c. if status c = SOpen then 0 else netPrem c) cs"
    by simp
  then show ?thesis unfolding totalPremiumCollected_sum by (rule arg_cong)
qed

text \<open>
  C2. The total premium collected should add the net premium of every closed, expired or
  assigned call. At an expired call with a \<open>totalCloseCost\<close> override of 50 (gross premium
  200, net premium 150) the reduction adds the gross premium 200.
\<close>

theorem totalPremiumCollected_expired_override:
  "status (xyz_call\<lparr>totalCloseCost := Some 50\<rparr>) = SExpired \<and>
   netPrem (xyz_call\<lparr>totalCloseCost := Some 50\<rparr>) = 150 \<and>
   totalPremiumCollected [xyz_call\<lparr>totalCloseCost := Some 50\<rparr>] = 200"
  by (simp add: totalPremiumCollected_def premiumStep_def netPrem_def grossPrem_def
        closeCostOf_def xyz_call_def)

section \<open>Days between dates\<close>

lemma js_round_of_int: "js_round (of_int k) = k"
  unfolding js_round_def by (subst floor_eq_iff) simp

lemma js_round_diff: "js_round (of_int j - of_int i) = j - i"
  using js_round_of_int [of "j - i"] by simp

lemma daysBetween_whole:
  "parseLocalDate now a = Some (of_int i) \<Longrightarrow> parseLocalDate now b = Some (of_int j)
     \<Longrightarrow> daysBetween now a b = Some (j - i)"
  by (simp add: daysBetween_def js_round_diff)

lemma date_2024_01_01: "parseLocalDate now ''2024-01-01'' = Some (of_int 19723)"
  by (simp add: number_defs date_defs Let_def)
lemma date_2024_01_05: "parseLocalDate now ''2024-01-05'' = Some (of_int 19727)"
  by (simp add: number_defs date_defs Let_def)
lemma date_2024_03_14: "parseLocalDate now ''2024-03-14'' = Some (of_int 19796)"
  by (simp add: number_defs date_defs Let_def)

section \<open>Tax rows: properties\<close>




lemma treatment_gt_days:
  "treatment (taxRow today now cs c) = ''Long-term'' \<longleftrightarrow>
     gt_days (held (taxRow today now cs c)) 365"
  by (simp add: taxRow_def Let_def)



section \<open>Annualized yield: properties\<close>

lemma allDates_hd:
  assumes "allDates cs = first # rest"
  shows "first \<noteq> [] \<and> first \<in> dateOpened ` set cs \<and>
         (\<forall>c \<in> set cs. dateOpened c \<noteq> [] \<longrightarrow> first \<le> dateOpened c)"
proof -
  let ?ds = "filter (\<lambda>s. s \<noteq> []) (map dateOpened cs)"
  have s: "sort ?ds = first # rest" using assms by (simp add: allDates_def)
  have "set (first # rest) = set ?ds" using s [symmetric] by simp
  moreover have "sorted (first # rest)" using s [symmetric] by simp
  ultimately show ?thesis by auto
qed

lemma allDates_earliest:
  assumes "first \<noteq> []" "first \<in> dateOpened ` set cs"
    and "\<forall>c \<in> set cs. dateOpened c \<noteq> [] \<longrightarrow> first \<le> dateOpened c"
  shows "\<exists>rest. allDates cs = first # rest"
proof (cases "allDates cs")
  case Nil
  then have "filter (\<lambda>s. s \<noteq> []) (map dateOpened cs) = []"
    by (metis allDates_def set_sort set_empty)
  then show ?thesis using assms(1,2) by (auto simp: filter_empty_conv)
next
  case (Cons f rest)
  from allDates_hd [OF Cons] assms have "f \<le> first" "first \<le> f" by auto
  then show ?thesis using Cons by simp
qed

lemma allDates_empty: "allDates cs = [] \<longleftrightarrow> (\<forall>c \<in> set cs. dateOpened c = [])"
proof -
  have "allDates cs = [] \<longleftrightarrow> filter (\<lambda>s. s \<noteq> []) (map dateOpened cs) = []"
    by (metis allDates_def set_sort set_empty)
  then show ?thesis by (auto simp: filter_empty_conv)
qed

text \<open>
  C8. The annualized yield is 0 when no capital is deployed, when no call has an open date,
  or when the number of days from the earliest call open date to today is at most 0;
  otherwise it is total premium collected over total capital deployed, times 365 over that
  number of days. The earliest open date is the least non-empty open-date string, as
  \<open>sort()\<close> orders them. With 1000 collected, 10000 deployed and 73 days the yield is 1/2.
\<close>

theorem annualized_yield:
  "(totalCapitalDeployed (positions data) = 0 \<longrightarrow> annualizedYield today now data = Fin 0) \<and>
   ((\<forall>c \<in> set (calls data). dateOpened c = []) \<longrightarrow> annualizedYield today now data = Fin 0) \<and>
   (totalCapitalDeployed (positions data) \<noteq> 0 \<and>
    first \<noteq> [] \<and> first \<in> dateOpened ` set (calls data) \<and>
    (\<forall>c \<in> set (calls data). dateOpened c \<noteq> [] \<longrightarrow> first \<le> dateOpened c) \<and>
    daysBetween now first today = Some n \<longrightarrow>
      (n \<le> 0 \<longrightarrow> annualizedYield today now data = Fin 0) \<and>
      (n > 0 \<longrightarrow> annualizedYield today now data =
         Fin ((totalPremiumCollected (calls data) / totalCapitalDeployed (positions data))
              * (365 / of_int n))))"
proof (intro conjI impI)
  show "annualizedYield today now data = Fin 0" if "totalCapitalDeployed (positions data) = 0"
    using that by (simp add: annualizedYield_def)
  show "annualizedYield today now data = Fin 0" if "\<forall>c \<in> set (calls data). dateOpened c = []"
  proof -
    have "allDates (calls data) = []" using that by (simp add: allDates_empty)
    then show ?thesis by (simp add: annualizedYield_def)
  qed
next
  assume a: "totalCapitalDeployed (positions data) \<noteq> 0 \<and>
    first \<noteq> [] \<and> first \<in> dateOpened ` set (calls data) \<and>
    (\<forall>c \<in> set (calls data). dateOpened c \<noteq> [] \<longrightarrow> first \<le> dateOpened c) \<and>
    daysBetween now first today = Some n"
  then obtain rest where r: "allDates (calls data) = first # rest"
    using allDates_earliest [of first "calls data"] by blast
  show "annualizedYield today now data = Fin 0" if "n \<le> 0"
    using a r that by (simp add: annualizedYield_def)
  show "annualizedYield today now data =
         Fin ((totalPremiumCollected (calls data) / totalCapitalDeployed (positions data))
              * (365 / of_int n))" if "n > 0"
    using a r that by (simp add: annualizedYield_def)
qed

theorem annualized_yield_witness:
  "totalPremiumCollected (calls yield_data) = 1000 \<and>
   totalCapitalDeployed (positions yield_data) = 10000 \<and>
   daysBetween 0 ''2024-01-01'' ''2024-03-14'' = Some 73 \<and>
   annualizedYield ''2024-03-14'' 0 yield_data = Fin (1 / 2) \<and>
   annualizedYield ''2024-01-01'' 0 yield_data = Fin 0 \<and>
   annualizedYield ''2024-03-14'' 0 (yield_data\<lparr>positions := []\<rparr>) = Fin 0 \<and>
   annualizedYield ''2024-03-14'' 0 (yield_data\<lparr>calls := [xyz_call\<lparr>dateOpened := []\<rparr>]\<rparr>) = Fin 0"
proof -
  have p: "totalPremiumCollected (calls yield_data) = 1000"
    by (simp add: yield_data_def xyz_call_def totalPremiumCollected_def premiumStep_def
          grossPrem_def)
  have k: "totalCapitalDeployed (positions yield_data) = 10000"
    by (simp add: yield_data_def xyz_position_def totalCapitalDeployed_def)
  have d: "daysBetween 0 ''2024-01-01'' ''2024-03-14'' = Some 73"
    using daysBetween_whole [OF date_2024_01_01 date_2024_03_14] by simp
  have d0: "daysBetween 0 ''2024-01-01'' ''2024-01-01'' = Some 0"
    using daysBetween_whole [OF date_2024_01_01 date_2024_01_01] by simp
  have c: "calls yield_data = [xyz_call\<lparr>premium := 10, dateOpened := ''2024-01-01''\<rparr>]"
    by (simp add: yield_data_def)
  have k0: "totalCapitalDeployed (positions (yield_data\<lparr>positions := []\<rparr>)) = 0"
    by (simp add: totalCapitalDeployed_def)
  show ?thesis
    using annualized_yield [of yield_data "''2024-03-14''" 0 "''2024-01-01''" 73]
          annualized_yield [of yield_data "''2024-01-01''" 0 "''2024-01-01''" 0]
          annualized_yield [of "yield_data\<lparr>positions := []\<rparr>" "''2024-03-14''" 0 "[]" 0]
          annualized_yield [of "yield_data\<lparr>calls := [xyz_call\<lparr>dateOpened := []\<rparr>]\<rparr>"
                               "''2024-03-14''" 0 "[]" 0]
          p k d d0 k0
    by (simp add: c)
qed

section \<open>Covered call against buy and hold: properties\<close>

lemmas upper_defs = toUpperCase_def upper_char_def


text \<open>Without a price (or with a price of 0) nothing is computed; alpha is defined exactly
  when both returns are.\<close>

lemma comparator_no_price:
  assumes "livePrices tk = None \<or> livePrices tk = Some 0"
  shows "mktPrice (compareTicker livePrices data tk) = None \<and>
         buyHoldReturn (compareTicker livePrices data tk) = None \<and>
         ccReturn (compareTicker livePrices data tk) = None \<and>
         alpha (compareTicker livePrices data tk) = None"
  using assms by (auto simp: compareTicker_def Let_def or_null_def minus_if_truthy_def)

lemma comparator_alpha_defined:
  "alpha (compareTicker livePrices data tk) \<noteq> None \<longleftrightarrow>
     ccReturn (compareTicker livePrices data tk) \<noteq> None \<and>
     buyHoldReturn (compareTicker livePrices data tk) \<noteq> None"
  by (simp add: compareTicker_def Let_def split: option.splits)

lemma comparator_alpha_value:
  "ccReturn (compareTicker livePrices data tk) = Some c \<Longrightarrow>
   buyHoldReturn (compareTicker livePrices data tk) = Some b \<Longrightarrow>
   alpha (compareTicker livePrices data tk) = Some (c - b)"
  by (simp add: compareTicker_def Let_def)

lemma foldl_add_sum_list:
  fixes a :: "'a :: comm_monoid_add"
  shows "foldl (\<lambda>s x. s + f x) a xs = a + sum_list (map f xs)"
  by (induction xs arbitrary: a) (simp_all add: add.assoc)

text \<open>The aggregates: every assigned call takes contracts times 100 shares out of the
  shares still held and adds strike times contracts times 100 to the assignment proceeds.\<close>

lemma comparator_shares:
  "currentShares (compareTicker livePrices data tk) =
     totalShares (compareTicker livePrices data tk)
       - (\<Sum>c\<leftarrow>filter (\<lambda>c. status c = SAssigned)
                   (filter (\<lambda>c. toUpperCase (ticker c) = tk) (calls data)). contracts c * 100) \<and>
   assignmentProceeds (compareTicker livePrices data tk) =
     (\<Sum>c\<leftarrow>filter (\<lambda>c. status c = SAssigned)
                   (filter (\<lambda>c. toUpperCase (ticker c) = tk) (calls data)).
        strike c * of_int (contracts c) * 100) \<and>
   netPremium (compareTicker livePrices data tk) =
     (\<Sum>c\<leftarrow>filter (\<lambda>c. toUpperCase (ticker c) = tk) (calls data). netPrem c) \<and>
   totalShares (compareTicker livePrices data tk) =
     (\<Sum>p\<leftarrow>filter (\<lambda>p. toUpperCase (pticker p) = tk) (positions data). shares p) \<and>
   totalCost (compareTicker livePrices data tk) =
     (\<Sum>p\<leftarrow>filter (\<lambda>p. toUpperCase (pticker p) = tk) (positions data).
        costBasis p * of_int (shares p))"
  by (simp add: compareTicker_def Let_def foldl_add_sum_list netPrem_def sum_list_subtractf)

text \<open>With a price, each return follows its formula as long as the value it is computed
  from is not 0.\<close>

lemma comparator_returns:
  assumes "livePrices tk = Some p" "p \<noteq> 0"
  shows "(totalShares (compareTicker livePrices data tk) \<noteq> 0 \<longrightarrow>
            buyHoldReturn (compareTicker livePrices data tk) =
              Some (p * of_int (totalShares (compareTicker livePrices data tk))
                    - totalCost (compareTicker livePrices data tk))) \<and>
         (p * of_int (currentShares (compareTicker livePrices data tk))
            + assignmentProceeds (compareTicker livePrices data tk)
            + netPremium (compareTicker livePrices data tk) \<noteq> 0 \<longrightarrow>
            ccReturn (compareTicker livePrices data tk) =
              Some (p * of_int (currentShares (compareTicker livePrices data tk))
                    + assignmentProceeds (compareTicker livePrices data tk)
                    + netPremium (compareTicker livePrices data tk)
                    - totalCost (compareTicker livePrices data tk)))"
  using assms
  by (simp add: compareTicker_def Let_def or_null_def minus_if_truthy_def mult.commute)

text \<open>The scenario of the specification: buy-and-hold 1000, covered call 1300, alpha
  300.\<close>

lemma comparator_example:
  "comparisons (Map.empty(''XYZ'' \<mapsto> 60)) example_data =
     [\<lparr> cmp_ticker = ''XYZ'', totalShares = 100, currentShares = 100, totalCost = 5000,
        mktPrice = Some 60, netPremium = 300, grossPremium = 300, assignedShares = 0,
        assignmentProceeds = 0, buyHoldReturn = Some 1000, ccReturn = Some 1300,
        alpha = Some 300 \<rparr>]"
  by (simp add: comparisons_def compareTicker_def example_data_def xyz_position_def xyz_call_def
        upper_defs or_null_def minus_if_truthy_def grossPrem_def closeCostOf_def Let_def)

text \<open>
  C3. The returns should be \<open>null\<close> exactly when the ticker has no price. With 100 XYZ
  shares bought at 5, a call sold for 100 and bought back for 300, and a price of 2, the
  covered-call value is 100 * 2 + 0 - 200 = 0: the price is known and the buy-and-hold
  return is -300, yet the covered-call return and alpha are \<open>null\<close>, because the value
  is tested for truthiness.
\<close>

theorem comparator_known_price_null_return:
  "comparisons (Map.empty(''XYZ'' \<mapsto> 2)) underwater_data =
     [\<lparr> cmp_ticker = ''XYZ'', totalShares = 100, currentShares = 100, totalCost = 500,
        mktPrice = Some 2, netPremium = - 200, grossPremium = 100, assignedShares = 0,
        assignmentProceeds = 0, buyHoldReturn = Some (- 300), ccReturn = None,
        alpha = None \<rparr>]"
  by (simp add: comparisons_def compareTicker_def underwater_data_def xyz_position_def
        xyz_call_def upper_defs or_null_def minus_if_truthy_def grossPrem_def closeCostOf_def
        Let_def)

text \<open>
  C4. With a known price the covered-call return should be price times shares still held
  plus assignment proceeds plus net premium minus total cost. With 200 XYZ shares bought at
  10, two contracts sold for 400 and bought back for 1000, and a price of 3, that is
  600 + 0 - 600 - 2000 = -2000, but the comparator gives \<open>null\<close>.
\<close>

theorem comparator_ccReturn_formula_fails:
  "mktPrice (compareTicker (Map.empty(''XYZ'' \<mapsto> 3)) underwater_data2 ''XYZ'') = Some 3 \<and>
   3 * of_int (currentShares (compareTicker (Map.empty(''XYZ'' \<mapsto> 3)) underwater_data2 ''XYZ''))
     + assignmentProceeds (compareTicker (Map.empty(''XYZ'' \<mapsto> 3)) underwater_data2 ''XYZ'')
     + netPremium (compareTicker (Map.empty(''XYZ'' \<mapsto> 3)) underwater_data2 ''XYZ'')
     - totalCost (compareTicker (Map.empty(''XYZ'' \<mapsto> 3)) underwater_data2 ''XYZ'') = - 2000 \<and>
   ccReturn (compareTicker (Map.empty(''XYZ'' \<mapsto> 3)) underwater_data2 ''XYZ'') = None"
  by (simp add: compareTicker_def underwater_data2_def xyz_position_def
        xyz_call_def upper_defs or_null_def minus_if_truthy_def grossPrem_def closeCostOf_def
        Let_def)

section \<open>Trade post-mortem: properties\<close>






section \<open>Weekly and monthly series: properties\<close>

lemma js_split_nonempty: "js_split sep s \<noteq> []"
  by (induction s) (auto split: list.splits)

lemma elem_year: "elem (map js_Number (js_split sep s)) 0 = js_Number (hd (js_split sep s))"
  using js_split_nonempty [of sep s] by (cases "js_split sep s") (simp_all add: elem_def)




lemma obj_add_keys: "fst ` set (obj_add k v obj) = insert k (fst ` set obj)"
  by (induction k v obj rule: obj_add.induct) auto



lemma addWeek_keys: "fst ` set weeks \<subseteq> fst ` set (addWeek weeks c)"
  by (auto simp: addWeek_def Let_def obj_add_keys)

lemma addMonth_keys: "fst ` set months \<subseteq> fst ` set (addMonth months c)"
  by (auto simp: addMonth_def Let_def obj_add_keys)

lemma foldl_keys:
  assumes "\<And>a c. fst ` set a \<subseteq> fst ` set (f a c)"
  shows "fst ` set a \<subseteq> fst ` set (foldl f a cs)"
proof (induction cs arbitrary: a)
  case Nil
  show ?case by simp
next
  case (Cons c cs)
  have "fst ` set a \<subseteq> fst ` set (f a c)" by (rule assms)
  also have "\<dots> \<subseteq> fst ` set (foldl f (f a c) cs)" by (rule Cons.IH)
  finally show ?case by simp
qed

text \<open>A non-open call that passes the guard of a series is in one of its buckets: the
  weekly bucket of the date JavaScript builds from the string (\<open>NaN-NaN-NaN\<close> when that
  date is invalid), the monthly bucket of the first seven characters.\<close>

lemma series_bucketed:
  assumes "status c \<noteq> SOpen"
  shows "(\<not> falsy (js_Number (hd (js_split CHR ''-'' (keyDate c)))) \<longrightarrow>
            weekKey (parseLocalDate now (keyDate c)) \<in> fst ` set (weekBuckets (xs @ c # ys))) \<and>
         (7 \<le> length (keyDate c) \<longrightarrow>
            take 7 (keyDate c) \<in> fst ` set (monthBuckets (xs @ c # ys)))"
proof (intro conjI impI)
  assume y: "\<not> falsy (js_Number (hd (js_split CHR ''-'' (keyDate c))))"
  let ?w = "foldl addWeek [] (filter (\<lambda>c. status c \<noteq> SOpen) xs)"
  have ne: "keyDate c \<noteq> []" using y by (auto simp: number_defs)
  have "weekKey (parseLocalDate now (keyDate c)) \<in> fst ` set (addWeek ?w c)"
    using y ne by (simp add: addWeek_def Let_def elem_year obj_add_keys parseLocalDate_def)
  also have "\<dots> \<subseteq> fst ` set (foldl addWeek (addWeek ?w c) (filter (\<lambda>c. status c \<noteq> SOpen) ys))"
    by (rule foldl_keys) (rule addWeek_keys)
  finally show "weekKey (parseLocalDate now (keyDate c)) \<in> fst ` set (weekBuckets (xs @ c # ys))"
    using assms by (simp add: weekBuckets_def)
next
  assume l: "7 \<le> length (keyDate c)"
  let ?m = "foldl addMonth [] (filter (\<lambda>c. status c \<noteq> SOpen) xs)"
  have "take 7 (keyDate c) \<in> fst ` set (addMonth ?m c)"
    using l by (auto simp: addMonth_def Let_def obj_add_keys)
  also have "\<dots> \<subseteq> fst ` set (foldl addMonth (addMonth ?m c) (filter (\<lambda>c. status c \<noteq> SOpen) ys))"
    by (rule foldl_keys) (rule addMonth_keys)
  finally show "take 7 (keyDate c) \<in> fst ` set (monthBuckets (xs @ c # ys))"
    using assms by (simp add: monthBuckets_def)
qed






section \<open>Dates as the forms deliver them\<close>

text \<open>
  A date input delivers \<open>YYYY-MM-DD\<close>, the string \<open>ymdString\<close> builds. The remaining
  lemmas show what the date code does on these strings: \<open>parseLocalDate\<close> returns the day
  number of the date, consecutive calendar days have consecutive day numbers, and the
  order of the strings is the order of the days.
\<close>

subsection \<open>Number on digit strings\<close>

lemma is_dec_digit_range: "is_dec_digit c \<longleftrightarrow> 48 \<le> (of_char c :: nat) \<and> (of_char c :: nat) \<le> 57"
  by (auto simp: is_dec_digit_def digit_in_def Let_def)

lemma dec_digit_plain:
  assumes "is_dec_digit c"
  shows "\<not> is_ws c" "c \<noteq> CHR ''-''" "c \<noteq> CHR ''+''" "c \<noteq> CHR ''.''" "c \<noteq> CHR ''I''"
    "c \<noteq> CHR ''x''" "c \<noteq> CHR ''X''" "c \<noteq> CHR ''o''" "c \<noteq> CHR ''O''"
    "c \<noteq> CHR ''b''" "c \<noteq> CHR ''B''"
  using assms by (auto simp: is_dec_digit_range is_ws_def)

lemma below_ten:
  "(k::nat) < 10 \<Longrightarrow>
     k = 0 \<or> k = 1 \<or> k = 2 \<or> k = 3 \<or> k = 4 \<or> k = 5 \<or> k = 6 \<or> k = 7 \<or> k = 8 \<or> k = 9"
  by arith

lemma digit_in_dig: "k < 10 \<Longrightarrow> digit_in 10 (digit_char k) = Some k"
  by (drule below_ten) (elim disjE; simp add: digit_char_def digit_in_def)

lemma of_char_dig: "k < 10 \<Longrightarrow> of_char (digit_char k) = 48 + k"
  by (drule below_ten) (elim disjE; simp add: digit_char_def)

lemma js_trim_digits:
  assumes "\<forall>c \<in> set s. is_dec_digit c"
  shows "js_trim s = s"
proof (cases "s = []")
  case True
  then show ?thesis by (simp add: js_trim_def)
next
  case False
  have "\<not> is_ws (hd s)" using assms False dec_digit_plain(1) by simp
  then have a: "dropWhile is_ws s = s" using False by (cases s) simp_all
  have "\<not> is_ws (hd (rev s))" using assms False dec_digit_plain(1) by (simp add: hd_rev)
  then have "dropWhile is_ws (rev s) = rev s" using False by (cases "rev s") simp_all
  then show ?thesis by (simp add: js_trim_def a)
qed

lemma take2_digits:
  assumes "\<forall>c \<in> set s. is_dec_digit c" "c \<in> {CHR ''x'', CHR ''X'', CHR ''o'', CHR ''O'', CHR ''b'', CHR ''B''}"
  shows "take 2 s \<noteq> [CHR ''0'', c]"
proof
  assume "take 2 s = [CHR ''0'', c]"
  then have "c \<in> set (take 2 s)" by simp
  then have "c \<in> set s" by (rule in_set_takeD)
  then have "is_dec_digit c" using assms(1) by simp
  then show False using assms(2) dec_digit_plain by auto
qed

lemma unsigned_decimal_digits:
  assumes "s \<noteq> []" "\<forall>c \<in> set s. is_dec_digit c" "digits_val 10 0 s = Some n"
  shows "unsigned_decimal s = Some (of_nat n)"
proof -
  have t: "takeWhile is_dec_digit s = s" using assms(2) by (simp add: takeWhile_eq_all_conv)
  have d: "dropWhile is_dec_digit s = []" using assms(2) by simp
  show ?thesis
    using assms(1,3) by (simp add: unsigned_decimal_def t d exponent_part_def pow10_def)
qed

lemma js_Number_digits:
  assumes "s \<noteq> []" "\<forall>c \<in> set s. is_dec_digit c" "digits_val 10 0 s = Some n"
  shows "js_Number s = Fin (of_nat n)"
proof -
  have h: "is_dec_digit (hd s)" using assms(1,2) by simp
  have i: "s \<noteq> ''Infinity''"
  proof
    assume "s = ''Infinity''"
    then have "hd s = CHR ''I''" by simp
    then show False using h dec_digit_plain(5) by simp
  qed
  have sl: "signed_literal s = Fin (of_nat n)"
    using assms(1) h dec_digit_plain(2,3) [OF h] i unsigned_decimal_digits [OF assms]
    by (simp add: signed_literal_def)
  show ?thesis
    using assms(1) take2_digits [OF assms(2)] sl
    by (simp add: js_Number_def js_trim_digits [OF assms(2)])
qed

lemma digits_val_append:
  "digits_val b acc (xs @ ys) =
     (case digits_val b acc xs of Some a \<Rightarrow> digits_val b a ys | None \<Rightarrow> None)"
  by (induction xs arbitrary: acc) (simp_all split: option.splits)

lemma nat_digits_props:
  "nat_digits n \<noteq> [] \<and> (\<forall>c \<in> set (nat_digits n). is_dec_digit c) \<and>
   digits_val 10 0 (nat_digits n) = Some n"
proof (induction n rule: nat_digits.induct)
  case (1 n)
  show ?case
  proof (cases "n < 10")
    case True
    then show ?thesis
      by (subst (1 2 3) nat_digits.simps) (simp add: digit_in_dig is_dec_digit_def)
  next
    case False
    have m: "n mod 10 < 10" by simp
    from 1 [OF False] have ih: "nat_digits (n div 10) \<noteq> []"
      "\<forall>c \<in> set (nat_digits (n div 10)). is_dec_digit c"
      "digits_val 10 0 (nat_digits (n div 10)) = Some (n div 10)" by auto
    show ?thesis
      using False ih
      by (subst (1 2 3) nat_digits.simps)
         (simp add: digits_val_append digit_in_dig [OF m] is_dec_digit_def)
  qed
qed

lemma js_Number_nat_digits: "js_Number (nat_digits n) = Fin (of_nat n)"
  using nat_digits_props [of n] by (intro js_Number_digits) auto


subsection \<open>Parsing a formatted date\<close>

lemma js_split_single: "sep \<notin> set a \<Longrightarrow> js_split sep a = [a]"
  by (induction a) auto

lemma js_split_append: "sep \<notin> set a \<Longrightarrow> js_split sep (a @ sep # r) = a # js_split sep r"
  by (induction a) auto

lemma padStart2_digits:
  assumes "s \<noteq> []" "\<forall>c \<in> set s. is_dec_digit c" "digits_val 10 0 s = Some n"
  shows "padStart2 s \<noteq> [] \<and> (\<forall>c \<in> set (padStart2 s). is_dec_digit c) \<and>
         digits_val 10 0 (padStart2 s) = Some n"
proof (cases "length s < 2")
  case False
  then show ?thesis using assms by (simp add: padStart2_def)
next
  case True
  then have l: "length s = 1" using assms(1) by (cases s) auto
  have z: "is_dec_digit CHR ''0''" "digit_in 10 CHR ''0'' = Some 0"
    by (simp_all add: is_dec_digit_def digit_in_def)
  show ?thesis using assms z by (simp add: padStart2_def l)
qed

lemma js_String_nat: "0 \<le> i \<Longrightarrow> js_String i = nat_digits (nat i)"
  by (simp add: js_String_def)

lemma no_dash: "\<forall>c \<in> set s. is_dec_digit c \<Longrightarrow> CHR ''-'' \<notin> set s"
  using dec_digit_plain(2) by blast

lemma parse_ymdString:
  assumes "0 \<le> y" "0 \<le> m" "0 \<le> d"
  shows "parseLocalDate now (ymdString y m d)
           = js_Date (Fin (of_int y)) (Fin (of_int m - 1)) (Fin (of_int d))"
proof -
  let ?Y = "nat_digits (nat y)" and ?M = "padStart2 (nat_digits (nat m))"
    and ?D = "padStart2 (nat_digits (nat d))"
  note py = nat_digits_props [of "nat y"]
  have pm: "?M \<noteq> [] \<and> (\<forall>c \<in> set ?M. is_dec_digit c) \<and> digits_val 10 0 ?M = Some (nat m)"
    using nat_digits_props [of "nat m"] by (intro padStart2_digits) auto
  have pd: "?D \<noteq> [] \<and> (\<forall>c \<in> set ?D. is_dec_digit c) \<and> digits_val 10 0 ?D = Some (nat d)"
    using nat_digits_props [of "nat d"] by (intro padStart2_digits) auto
  have s: "ymdString y m d = ?Y @ CHR ''-'' # (?M @ CHR ''-'' # ?D)"
    using assms by (simp add: ymdString_def js_String_nat)
  have sp: "js_split CHR ''-'' (ymdString y m d) = [?Y, ?M, ?D]"
    using py pm pd by (simp add: s js_split_append js_split_single no_dash)
  have ny: "js_Number ?Y = Fin (of_int y)"
    using js_Number_nat_digits [of "nat y"] assms(1) by simp
  have nm: "js_Number ?M = Fin (of_int m)"
    using js_Number_digits [of ?M "nat m"] pm assms(2) by simp
  have nd: "js_Number ?D = Fin (of_int d)"
    using js_Number_digits [of ?D "nat d"] pd assms(3) by simp
  have ne: "ymdString y m d \<noteq> []" by (simp add: s)
  show ?thesis
    unfolding parseLocalDate_def sp using ne by (simp add: elem_def ny nm nd)
qed

lemma trunc_of_int: "trunc (of_int k) = k"
  by (simp add: trunc_def)

lemma trunc_of_int_minus1: "trunc (of_int k - 1) = k - 1"
  using trunc_of_int [of "k - 1"] by simp

lemma js_Date_int:
  "100 \<le> y \<Longrightarrow> js_Date (Fin (of_int y)) (Fin (of_int m - 1)) (Fin (of_int d))
                   = TimeClip (MakeDay y (m - 1) d)"
  by (simp add: js_Date_def trunc_of_int trunc_of_int_minus1)


subsection \<open>Day numbers of calendar dates\<close>

lemma monthStart_next:
  assumes "1 \<le> m" "m \<le> 11"
  shows "monthStart y m = monthStart y (m - 1) + daysInMonth y m"
proof -
  have "m = 1 \<or> m = 2 \<or> m = 3 \<or> m = 4 \<or> m = 5 \<or> m = 6 \<or> m = 7 \<or> m = 8 \<or> m = 9 \<or> m = 10
       \<or> m = 11" using assms by arith
  then show ?thesis by (elim disjE; simp add: monthStart_def daysInMonth_def)
qed

lemma daysInMonth_pos: "28 \<le> daysInMonth y m"
  by (simp add: daysInMonth_def)

lemma daysInMonth_le: "daysInMonth y m \<le> 31"
  by (simp add: daysInMonth_def)

lemma monthStart_mono:
  assumes "0 \<le> a" "a \<le> b" "b \<le> 11"
  shows "monthStart y a \<le> monthStart y b"
  using assms(2,3)
proof (induction b rule: int_ge_induct)
  case base
  show ?case by simp
next
  case (step i)
  have "monthStart y (i + 1) = monthStart y i + daysInMonth y (i + 1)"
    using monthStart_next [of "i + 1" y] step.hyps step.prems assms(1) by simp
  then show ?case using step daysInMonth_pos [of y "i + 1"] by simp
qed

lemma monthStart_last: "monthStart y 11 + 31 = (if InLeapYear y then 366 else 365)"
  by (simp add: monthStart_def)

lemma dayOfYear_bound:
  assumes "validDate y m d"
  shows "1 \<le> monthStart y (m - 1) + d"
    and "monthStart y (m - 1) + d \<le> (if InLeapYear y then 366 else 365)"
proof -
  have r: "1 \<le> m" "m \<le> 12" "1 \<le> d" "d \<le> daysInMonth y m"
    using assms by (simp_all add: validDate_def)
  have "monthStart y 0 \<le> monthStart y (m - 1)" using r by (intro monthStart_mono) auto
  then show "1 \<le> monthStart y (m - 1) + d" using r(3) by (simp add: monthStart_def)
  show "monthStart y (m - 1) + d \<le> (if InLeapYear y then 366 else 365)"
  proof (cases "m = 12")
    case True
    then show ?thesis using r(4) monthStart_last [of y] by (simp add: daysInMonth_def)
  next
    case False
    then have "monthStart y (m - 1) + d \<le> monthStart y m"
      using monthStart_next [of m y] r by simp
    also have "\<dots> \<le> monthStart y 11" using r False by (intro monthStart_mono) auto
    finally show ?thesis using monthStart_last [of y] by (simp split: if_splits)
  qed
qed

lemma dayOfYear_mono:
  assumes "validDate y m d" "validDate y m' d'" "m < m' \<or> (m = m' \<and> d \<le> d')"
  shows "monthStart y (m - 1) + d \<le> monthStart y (m' - 1) + d'"
proof (cases "m < m'")
  case False
  then show ?thesis using assms(3) by auto
next
  case True
  have r: "1 \<le> m" "m \<le> 12" "d \<le> daysInMonth y m" "m' \<le> 12" "1 \<le> d'"
    using assms(1,2) by (simp_all add: validDate_def)
  have "monthStart y (m - 1) + d \<le> monthStart y m"
    using monthStart_next [of m y] r True by simp
  also have "\<dots> \<le> monthStart y (m' - 1)" using r True by (intro monthStart_mono) auto
  finally show ?thesis using r(5) by simp
qed

lemma div_step:
  fixes x k :: int
  assumes "0 < k"
  shows "(x + 1) div k = x div k + (if (x + 1) mod k = 0 then 1 else 0)"
proof (cases "x mod k = k - 1")
  case True
  have e: "k * (x div k) + x mod k = x" by simp
  have "k * (x div k + 1) = k * (x div k) + k" by (simp add: distrib_left)
  then have f: "x + 1 = k * (x div k + 1) + 0" using e True by linarith
  have "(x + 1) div k = x div k + 1"
    by (rule int_div_pos_eq [OF f]) (use assms in simp_all)
  moreover have "(x + 1) mod k = 0"
    by (rule int_mod_pos_eq [OF f]) (use assms in simp_all)
  ultimately show ?thesis by simp
next
  case False
  have b: "0 \<le> x mod k" "x mod k < k" using assms by simp_all
  have f: "x + 1 = k * (x div k) + (x mod k + 1)" by simp
  have "(x + 1) div k = x div k"
    by (rule int_div_pos_eq [OF f]) (use b False in simp_all)
  moreover have "(x + 1) mod k = x mod k + 1"
    by (rule int_mod_pos_eq [OF f]) (use b False in simp_all)
  ultimately show ?thesis using b by simp
qed

lemma leap_mods:
  fixes y :: int
  shows "(y - 1968) mod 4 = y mod 4" "(y - 1900) mod 100 = y mod 100"
    "(y - 1600) mod 400 = y mod 400"
proof -
  have "(y + 4 * (- 492)) mod 4 = y mod 4" by (rule mod_mult_self2)
  then show "(y - 1968) mod 4 = y mod 4" by simp
  have "(y + 100 * (- 19)) mod 100 = y mod 100" by (rule mod_mult_self2)
  then show "(y - 1900) mod 100 = y mod 100" by simp
  have "(y + 400 * (- 4)) mod 400 = y mod 400" by (rule mod_mult_self2)
  then show "(y - 1600) mod 400 = y mod 400" by simp
qed

lemma DayFromYear_step:
  "DayFromYear (y + 1) = DayFromYear y + (if InLeapYear y then 366 else 365)"
proof -
  have a: "(y - 1968) div 4 = (y - 1969) div 4 + (if y mod 4 = 0 then 1 else 0)"
    using div_step [of 4 "y - 1969"] by (simp add: leap_mods)
  have b: "(y - 1900) div 100 = (y - 1901) div 100 + (if y mod 100 = 0 then 1 else 0)"
    using div_step [of 100 "y - 1901"] by (simp add: leap_mods)
  have c: "(y - 1600) div 400 = (y - 1601) div 400 + (if y mod 400 = 0 then 1 else 0)"
    using div_step [of 400 "y - 1601"] by (simp add: leap_mods)
  have d: "y mod 400 = 0 \<Longrightarrow> y mod 100 = 0" "y mod 100 = 0 \<Longrightarrow> y mod 4 = 0"
    using mod_mod_cancel [of 100 400 y] mod_mod_cancel [of 4 100 y] by simp_all
  show ?thesis
    using d by (auto simp: DayFromYear_def InLeapYear_def a b c)
qed

lemma DayFromYear_mono: "y \<le> y' \<Longrightarrow> DayFromYear y \<le> DayFromYear y'"
proof (induction y' rule: int_ge_induct)
  case base
  show ?case by simp
next
  case (step i)
  then show ?case using DayFromYear_step [of i] by (simp split: if_splits)
qed

lemma MakeDay_month: "1 \<le> m \<Longrightarrow> m \<le> 12 \<Longrightarrow>
    MakeDay y (m - 1) d = DayFromYear y + monthStart y (m - 1) + d - 1"
  by (simp add: MakeDay_def Let_def)

lemma MakeDay_mono:
  assumes "validDate y m d" "validDate y' m' d'"
    and "y < y' \<or> (y = y' \<and> (m < m' \<or> (m = m' \<and> d \<le> d')))"
  shows "MakeDay y (m - 1) d \<le> MakeDay y' (m' - 1) d'"
proof -
  have r: "1 \<le> m" "m \<le> 12" "1 \<le> m'" "m' \<le> 12"
    using assms(1,2) by (simp_all add: validDate_def)
  show ?thesis
  proof (cases "y < y'")
    case False
    then have "y = y'" "m < m' \<or> (m = m' \<and> d \<le> d')" using assms(3) by auto
    then show ?thesis
      using dayOfYear_mono [of y m d m' d'] assms(1,2) r by (simp add: MakeDay_month)
  next
    case True
    have "DayFromYear y + monthStart y (m - 1) + d \<le> DayFromYear (y + 1)"
      using dayOfYear_bound(2) [OF assms(1)] DayFromYear_step [of y] by (simp split: if_splits)
    also have "\<dots> \<le> DayFromYear y'" using True by (intro DayFromYear_mono) simp
    also have "\<dots> \<le> DayFromYear y' + monthStart y' (m' - 1) + d' - 1"
      using dayOfYear_bound(1) [OF assms(2)] by simp
    finally show ?thesis using r by (simp add: MakeDay_month)
  qed
qed

lemma MakeDay_range:
  assumes "100 \<le> y" "y \<le> 9999" "validDate y m d"
  shows "\<bar>MakeDay y (m - 1) d\<bar> \<le> 100000000"
proof -
  have r: "1 \<le> m" "m \<le> 12" using assms(3) by (simp_all add: validDate_def)
  have lo: "DayFromYear 100 \<le> DayFromYear y" using assms(1) by (rule DayFromYear_mono)
  have hi: "DayFromYear y \<le> DayFromYear 9999" using assms(2) by (rule DayFromYear_mono)
  have a: "DayFromYear 100 = - 683003" "DayFromYear 9999 = 2932532"
    by (simp_all add: DayFromYear_def)
  have b: "1 \<le> monthStart y (m - 1) + d"
    by (rule dayOfYear_bound(1) [OF assms(3)])
  have c: "monthStart y (m - 1) + d \<le> 366"
    using dayOfYear_bound(2) [OF assms(3)] by (simp split: if_splits)
  have "MakeDay y (m - 1) d = DayFromYear y + (monthStart y (m - 1) + d) - 1"
    using r by (simp add: MakeDay_month)
  then show ?thesis using lo hi b c unfolding a by linarith
qed

text \<open>On the string of a calendar date \<open>parseLocalDate\<close> returns its day number.\<close>

lemma parse_valid_ymd:
  assumes "100 \<le> y" "y \<le> 9999" "validDate y m d"
  shows "parseLocalDate now (ymdString y m d) = Some (of_int (MakeDay y (m - 1) d))"
proof -
  have r: "0 \<le> y" "0 \<le> m" "0 \<le> d" using assms by (simp_all add: validDate_def)
  have "\<not> \<bar>MakeDay y (m - 1) d\<bar> > 100000000" using MakeDay_range [OF assms] by simp
  then show ?thesis
    by (simp add: parse_ymdString [OF r] js_Date_int [OF assms(1)] TimeClip_def)
qed


subsection \<open>Order of formatted dates\<close>

lemma dig_less: "k < k' \<Longrightarrow> k' < 10 \<Longrightarrow> digit_char k < digit_char k'"
  by (simp add: less_char_def of_char_dig)

lemma append_less_same_length:
  fixes a b :: "'a :: linorder list"
  shows "length a = length b \<Longrightarrow> (a @ x < b @ y \<longleftrightarrow> a < b \<or> (a = b \<and> x < y))"
  by (induction a b rule: list_induct2) auto

lemma nat_digits_length_step: "10 \<le> n \<Longrightarrow> length (nat_digits n) = Suc (length (nat_digits (n div 10)))"
  by (subst nat_digits.simps) simp

lemma nat_digits_less:
  "n < n' \<Longrightarrow> length (nat_digits n) = length (nat_digits n') \<Longrightarrow> nat_digits n < nat_digits n'"
proof (induction n arbitrary: n' rule: nat_digits.induct)
  case (1 n)
  show ?case
  proof (cases "n < 10")
    case True
    then have l: "length (nat_digits n) = 1" by (subst nat_digits.simps) simp
    have "n' < 10"
    proof (rule ccontr)
      assume "\<not> n' < 10"
      then have "length (nat_digits n') = Suc (length (nat_digits (n' div 10)))"
        by (simp add: nat_digits_length_step)
      moreover have "nat_digits (n' div 10) \<noteq> []" using nat_digits_props by simp
      ultimately show False using l "1.prems"(2) by simp
    qed
    then show ?thesis
      using True "1.prems"(1)
      by (subst (1 2) nat_digits.simps) (simp add: dig_less)
  next
    case False
    then have g: "10 \<le> n" "10 \<le> n'" using "1.prems"(1) by simp_all
    have len: "length (nat_digits (n div 10)) = length (nat_digits (n' div 10))"
      using "1.prems"(2) g by (simp add: nat_digits_length_step)
    have e: "nat_digits n = nat_digits (n div 10) @ [digit_char (n mod 10)]"
      "nat_digits n' = nat_digits (n' div 10) @ [digit_char (n' mod 10)]"
      using g by (subst nat_digits.simps, simp)+
    have le: "n div 10 \<le> n' div 10"
      by (rule div_le_mono) (use "1.prems"(1) in simp)
    show ?thesis
    proof (cases "n div 10 = n' div 10")
      case False
      then have "n div 10 < n' div 10" using le by (rule le_neq_implies_less [rotated])
      then have "nat_digits (n div 10) < nat_digits (n' div 10)"
        using "1.IH" [OF \<open>\<not> n < 10\<close> _ len] by simp
      then show ?thesis by (simp add: e append_less_same_length [OF len])
    next
      case True
      have "n mod 10 < n' mod 10"
      proof (rule ccontr)
        assume "\<not> n mod 10 < n' mod 10"
        then have "n' mod 10 \<le> n mod 10" by (simp only: not_less)
        then have "10 * (n' div 10) + n' mod 10 \<le> 10 * (n' div 10) + n mod 10"
          by (rule add_left_mono)
        then have "10 * (n' div 10) + n' mod 10 \<le> 10 * (n div 10) + n mod 10"
          by (simp only: True)
        then have "n' \<le> n" by (simp only: mult_div_mod_eq)
        then show False using "1.prems"(1) by simp
      qed
      then have "digit_char (n mod 10) < digit_char (n' mod 10)" by (rule dig_less) simp
      then show ?thesis using True by (simp add: e append_less_same_length [OF refl])
    qed
  qed
qed

lemma nat_digits_length:
  "n < 10 \<Longrightarrow> length (nat_digits n) = 1"
  "10 \<le> n \<Longrightarrow> n < 100 \<Longrightarrow> length (nat_digits n) = 2"
  "100 \<le> n \<Longrightarrow> n < 1000 \<Longrightarrow> length (nat_digits n) = 3"
  "1000 \<le> n \<Longrightarrow> n < 10000 \<Longrightarrow> length (nat_digits n) = 4"
proof -
  show 1: "length (nat_digits n) = 1" if "n < 10" for n
    using that by (subst nat_digits.simps) simp
  show 2: "length (nat_digits n) = 2" if "10 \<le> n" "n < 100" for n
  proof -
    have "n div 10 < 10" using that by arith
    then show ?thesis using that 1 [of "n div 10"] by (simp add: nat_digits_length_step)
  qed
  show 3: "length (nat_digits n) = 3" if "100 \<le> n" "n < 1000" for n
  proof -
    have "10 \<le> n div 10" "n div 10 < 100" using that by arith+
    then show ?thesis using that 2 [of "n div 10"] by (simp add: nat_digits_length_step)
  qed
  show "length (nat_digits n) = 4" if "1000 \<le> n" "n < 10000" for n
  proof -
    have "100 \<le> n div 10" "n div 10 < 1000" using that by arith+
    then show ?thesis using that 3 [of "n div 10"] by (simp add: nat_digits_length_step)
  qed
qed

lemma pad2_form:
  assumes "k < 100"
  shows "padStart2 (nat_digits k) = (if k < 10 then [CHR ''0'', digit_char k] else nat_digits k)"
    and "length (padStart2 (nat_digits k)) = 2"
proof -
  have l: "length (nat_digits k) = (if k < 10 then 1 else 2)"
    using assms nat_digits_length(1,2) [of k] by simp
  show "padStart2 (nat_digits k) = (if k < 10 then [CHR ''0'', digit_char k] else nat_digits k)"
  proof (cases "k < 10")
    case True
    then show ?thesis by (subst (1 2) nat_digits.simps) (simp add: padStart2_def)
  next
    case False
    then show ?thesis using l by (simp add: padStart2_def)
  qed
  show "length (padStart2 (nat_digits k)) = 2"
    using l by (simp add: padStart2_def)
qed

lemma zero_char: "CHR ''0'' = digit_char 0"
  by (simp add: digit_char_def)

lemma pad2_less:
  assumes "n < n'" "n' < 100"
  shows "padStart2 (nat_digits n) < padStart2 (nat_digits n')"
proof -
  have n: "n < 100" using assms by simp
  show ?thesis
  proof (cases "n' < 10")
    case True
    then show ?thesis
      using assms(1) by (simp add: pad2_form(1) [OF n] pad2_form(1) [OF assms(2)] dig_less)
  next
    case False
    note big = this
    show ?thesis
    proof (cases "n < 10")
      case True
      have b: "1 \<le> n' div 10" "n' div 10 < 10" using big assms(2) by arith+
      then have z: "digit_char 0 < digit_char (n' div 10)" by (intro dig_less) simp_all
      have e: "nat_digits n' = nat_digits (n' div 10) @ [digit_char (n' mod 10)]"
        using big by (subst nat_digits.simps) simp
      have f: "nat_digits (n' div 10) = [digit_char (n' div 10)]"
        using b(2) by (subst nat_digits.simps) simp
      have "padStart2 (nat_digits n') = nat_digits n'"
        using pad2_form(1) [OF assms(2)] big by simp
      also have "\<dots> = [digit_char (n' div 10), digit_char (n' mod 10)]"
        unfolding e f by simp
      finally have pn': "padStart2 (nat_digits n')
                           = [digit_char (n' div 10), digit_char (n' mod 10)]" .
      have pn: "padStart2 (nat_digits n) = [digit_char 0, digit_char n]"
        using pad2_form(1) [OF n] True by (simp add: zero_char)
      show ?thesis unfolding pn pn' using z by simp
    next
      case False
      have "length (nat_digits n) = length (nat_digits n')"
        using False big n assms(2) by (simp add: nat_digits_length(2))
      then have "nat_digits n < nat_digits n'" by (rule nat_digits_less [OF assms(1)])
      then show ?thesis
        using False big by (simp add: pad2_form(1) [OF n] pad2_form(1) [OF assms(2)])
    qed
  qed
qed

lemma ymdString_less:
  assumes "1000 \<le> y" "y \<le> 9999" "1000 \<le> y'" "y' \<le> 9999"
    and "0 \<le> m" "m < 100" "0 \<le> m'" "m' < 100" "0 \<le> d" "d < 100" "0 \<le> d'" "d' < 100"
    and "y < y' \<or> (y = y' \<and> (m < m' \<or> (m = m' \<and> d < d')))"
  shows "ymdString y m d < ymdString y' m' d'"
proof -
  let ?Y = "nat_digits (nat y)" and ?M = "padStart2 (nat_digits (nat m))"
    and ?D = "padStart2 (nat_digits (nat d))"
  let ?Y' = "nat_digits (nat y')" and ?M' = "padStart2 (nat_digits (nat m'))"
    and ?D' = "padStart2 (nat_digits (nat d'))"
  have s: "ymdString y m d = ?Y @ (CHR ''-'' # (?M @ (CHR ''-'' # ?D)))"
    "ymdString y' m' d' = ?Y' @ (CHR ''-'' # (?M' @ (CHR ''-'' # ?D')))"
    using assms by (simp_all add: ymdString_def js_String_nat)
  have ly: "length ?Y = length ?Y'"
    using assms(1-4) by (simp add: nat_digits_length(4))
  have lm: "length ?M = length ?M'"
    using assms(5-8) by (simp add: pad2_form(2))
  have yy: "?Y < ?Y'" if "y < y'"
    using that assms(1) ly by (intro nat_digits_less) simp_all
  have mm: "?M < ?M'" if "m < m'"
    using that assms(5-8) by (intro pad2_less) simp_all
  have dd: "?D < ?D'" if "d < d'"
    using that assms(9-12) by (intro pad2_less) simp_all
  show ?thesis
    unfolding s append_less_same_length [OF ly] Cons_less_Cons append_less_same_length [OF lm]
    using assms(13) yy mm dd by auto
qed

text \<open>The code-unit order of two formatted dates is the order of their days.\<close>

lemma ymdString_le_days:
  assumes "1000 \<le> y" "y \<le> 9999" "validDate y m d"
    and "1000 \<le> y'" "y' \<le> 9999" "validDate y' m' d'"
    and "ymdString y m d \<le> ymdString y' m' d'"
  shows "MakeDay y (m - 1) d \<le> MakeDay y' (m' - 1) d'"
proof -
  have r: "0 \<le> m" "m < 100" "0 \<le> d" "d < 100" "0 \<le> m'" "m' < 100" "0 \<le> d'" "d' < 100"
    using assms(3,6) daysInMonth_le [of y m] daysInMonth_le [of y' m']
    by (simp_all add: validDate_def)
  have "\<not> (y' < y \<or> (y' = y \<and> (m' < m \<or> (m' = m \<and> d' < d))))"
  proof
    assume "y' < y \<or> (y' = y \<and> (m' < m \<or> (m' = m \<and> d' < d)))"
    then have "ymdString y' m' d' < ymdString y m d"
      using assms(1,2,4,5) r by (intro ymdString_less) simp_all
    then show False using assms(7) by simp
  qed
  then have "y < y' \<or> (y = y' \<and> (m < m' \<or> (m = m' \<and> d \<le> d')))" by auto
  then show ?thesis using assms(3,6) by (intro MakeDay_mono) simp_all
qed


text \<open>The day after a calendar date (the next day of the month, the first of the next
  month, or the first of January) has the next day number, so a difference of day numbers
  counts calendar days.\<close>

lemma MakeDay_next_day:
  assumes "validDate y m d"
  shows "(d < daysInMonth y m \<longrightarrow> MakeDay y (m - 1) (d + 1) = MakeDay y (m - 1) d + 1) \<and>
         (d = daysInMonth y m \<and> m < 12 \<longrightarrow> MakeDay y m 1 = MakeDay y (m - 1) d + 1) \<and>
         (d = daysInMonth y m \<and> m = 12 \<longrightarrow> MakeDay (y + 1) 0 1 = MakeDay y (m - 1) d + 1)"
proof -
  have r: "1 \<le> m" "m \<le> 12" using assms by (simp_all add: validDate_def)
  have a: "MakeDay y (m - 1) (d + 1) = MakeDay y (m - 1) d + 1"
    by (simp add: MakeDay_def Let_def)
  have b: "MakeDay y m 1 = MakeDay y (m - 1) d + 1" if "d = daysInMonth y m" "m < 12"
    using that r monthStart_next [of m y] MakeDay_month [of m y d] MakeDay_month [of "m + 1" y 1]
    by simp
  have c: "MakeDay (y + 1) 0 1 = MakeDay y (m - 1) d + 1" if "d = daysInMonth y m" "m = 12"
    using that MakeDay_month [of 12 y 31] MakeDay_month [of 1 "y + 1" 1] DayFromYear_step [of y]
      monthStart_last [of y]
    by (simp add: daysInMonth_def monthStart_def split: if_splits)
  show ?thesis using a b c by blast
qed

text \<open>When the open dates are formatted calendar dates, the first of the sorted open
  dates is the earliest day.\<close>

lemma allDates_hd_earliest:
  assumes "allDates cs = first # rest"
    and iso: "\<And>c. c \<in> set cs \<Longrightarrow> dateOpened c \<noteq> [] \<Longrightarrow>
               \<exists>y m d. 1000 \<le> y \<and> y \<le> 9999 \<and> validDate y m d \<and> dateOpened c = ymdString y m d"
  shows "\<exists>i. parseLocalDate now first = Some (of_int i) \<and>
           (\<forall>c \<in> set cs. dateOpened c \<noteq> [] \<longrightarrow>
              (\<exists>j. parseLocalDate now (dateOpened c) = Some (of_int j) \<and> i \<le> j))"
proof -
  from allDates_hd [OF assms(1)] obtain c0 where c0: "c0 \<in> set cs" "dateOpened c0 = first"
    and ne: "first \<noteq> []"
    and least: "\<forall>c \<in> set cs. dateOpened c \<noteq> [] \<longrightarrow> first \<le> dateOpened c"
    by auto
  from iso [OF c0(1)] c0(2) ne obtain y m d
    where f: "1000 \<le> y" "y \<le> 9999" "validDate y m d" "first = ymdString y m d" by auto
  have pf: "parseLocalDate now first = Some (of_int (MakeDay y (m - 1) d))"
    using parse_valid_ymd [of y m d now] f by simp
  have "\<exists>j. parseLocalDate now (dateOpened c) = Some (of_int j) \<and> MakeDay y (m - 1) d \<le> j"
    if c: "c \<in> set cs" "dateOpened c \<noteq> []" for c
  proof -
    from iso [OF c] obtain y' m' d'
      where g: "1000 \<le> y'" "y' \<le> 9999" "validDate y' m' d'" "dateOpened c = ymdString y' m' d'"
      by auto
    have "ymdString y m d \<le> ymdString y' m' d'" using least c f(4) g(4) by auto
    then have "MakeDay y (m - 1) d \<le> MakeDay y' (m' - 1) d'"
      using f g by (intro ymdString_le_days) simp_all
    moreover have "parseLocalDate now (dateOpened c) = Some (of_int (MakeDay y' (m' - 1) d'))"
      using parse_valid_ymd [of y' m' d' now] g by simp
    ultimately show ?thesis by blast
  qed
  then show ?thesis using pf by blast
qed

end
